theory Spec2Isabelle
  imports Main
begin

section \<open>The table engine of \<open>src/db.py\<close>\<close>

text \<open>
  The engine keeps every table in memory as a list of dictionaries and rewrites one JSON
  file per table on each mutation. This theory embeds the classes \<open>Table\<close> and
  \<open>Database\<close> method by method.

  \<^item> A Python \<open>dict\<close> with string keys is an association list in insertion order;
    \<open>d.get(k)\<close> is \<open>map_of d k\<close>, \<open>k in d\<close> is membership in \<open>map fst d\<close>,
    and \<open>for k in d\<close> walks \<open>map fst d\<close> from the left. A \<open>dict\<close> has no key
    twice; nothing below depends on that, and every example list has distinct keys. The
    index, whose order is never observed, is a map \<open>string \<rightharpoonup> nat\<close>.
  \<^item> Column values are the scalars that the interpreters and a JSON file supply:
    \<open>None\<close>, booleans, integers and strings. Floats and nested containers are left out.
  \<^item> Every method takes the state it reads and returns the state it leaves behind: the
    table object and the file system (a map from path to file contents). A method that
    raises returns the exception as \<open>Inl\<close> together with the state at the moment of
    the raise.
  \<^item> \<open>json.dump\<close> followed by \<open>json.load\<close> is taken to return the document that was
    written. A file holds either such a document (an object whose three keys may each be
    absent) or text that \<open>json.load\<close> rejects. Writing to a path always succeeds.
    What \<open>load\<close> prints about an undecodable file is not part of the state.
\<close>

subsection \<open>Values and \<open>str\<close>\<close>

datatype pyval = PNone | PBool bool | PInt int | PStr string

fun string_of_nat :: "nat \<Rightarrow> string" where
  "string_of_nat n =
     (if n < 10 then [''0123456789'' ! n]
      else string_of_nat (n div 10) @ [''0123456789'' ! (n mod 10)])"

declare string_of_nat.simps [simp del]

text \<open>Python's \<open>str\<close> on a scalar.\<close>

fun str_py :: "pyval \<Rightarrow> string" where
  "str_py PNone = ''None''"
| "str_py (PBool b) = (if b then ''True'' else ''False'')"
| "str_py (PInt i) = (if i < 0 then CHR ''-'' # string_of_nat (nat (- i)) else string_of_nat (nat i))"
| "str_py (PStr s) = s"

subsection \<open>Dictionaries\<close>

type_synonym 'v dict = "(string \<times> 'v) list"

type_synonym row = "pyval dict"

definition keys :: "'v dict \<Rightarrow> string list" where
  "keys d = map fst d"

text \<open>\<open>d.get(k)\<close> with the default \<open>None\<close>.\<close>

definition dict_get :: "row \<Rightarrow> string \<Rightarrow> pyval" where
  "dict_get d k = (case map_of d k of None \<Rightarrow> PNone | Some v \<Rightarrow> v)"

subsection \<open>Exceptions\<close>

text \<open>
  The engine raises \<open>ValueError\<close> with a different message at each site; one constructor
  stands for each site. \<open>KeyError\<close>, \<open>IndexError\<close> and \<open>JSONDecodeError\<close> are the
  interpreter's own exceptions at a subscript or in \<open>json.load\<close>.
\<close>

datatype error =
    ColumnNotInSchema string    \<comment> \<open>\<open>ValueError("Column '..' not in schema ..")\<close>\<close>
  | MissingColumn string        \<comment> \<open>\<open>ValueError("Missing column '..'")\<close>\<close>
  | DuplicateEntry string       \<comment> \<open>\<open>ValueError("Duplicate entry for Primary Key '..'")\<close>\<close>
  | KeyNotFound string          \<comment> \<open>\<open>ValueError("Key .. not found.")\<close>\<close>
  | TableAlreadyLoaded string   \<comment> \<open>\<open>ValueError("Table .. already loaded.")\<close>\<close>
  | TableDoesNotExist string    \<comment> \<open>\<open>ValueError("Table '..' does not exist.")\<close>\<close>
  | KeyError string
  | IndexError
  | JSONDecodeError

text \<open>The failure classes of the specification, by raise site.\<close>

fun is_SchemaError :: "error \<Rightarrow> bool" where
  "is_SchemaError (ColumnNotInSchema c) = True"
| "is_SchemaError (MissingColumn c) = True"
| "is_SchemaError e = False"

fun is_DuplicateKeyError :: "error \<Rightarrow> bool" where
  "is_DuplicateKeyError (DuplicateEntry k) = True"
| "is_DuplicateKeyError e = False"

fun is_KeyNotFoundError :: "error \<Rightarrow> bool" where
  "is_KeyNotFoundError (KeyNotFound k) = True"
| "is_KeyNotFoundError e = False"

fun is_TableNotFoundError :: "error \<Rightarrow> bool" where
  "is_TableNotFoundError (TableDoesNotExist n) = True"
| "is_TableNotFoundError e = False"

subsection \<open>Files\<close>

record document =
  doc_schema :: "string dict option"
  doc_pk_col :: "string option"
  doc_rows :: "row list option"

datatype contents = Undecodable | Json document

type_synonym filesystem = "string \<rightharpoonup> contents"

subsection \<open>\<open>class Table\<close>\<close>

record table =
  name :: string
  schema :: "string dict"
  pk_col :: string
  rows :: "row list"
  index :: "string \<rightharpoonup> nat"
  filepath :: string

definition data_path :: "string \<Rightarrow> string" where
  "data_path nm = ''data/'' @ nm @ ''.json''"

text \<open>
  \<open>rebuild_index\<close>: the loop over \<open>enumerate(self.rows)\<close>, with the running position
  and the index built so far.
\<close>

fun rebuild_from :: "string \<Rightarrow> nat \<Rightarrow> row list \<Rightarrow> (string \<rightharpoonup> nat) \<Rightarrow> (string \<rightharpoonup> nat)" where
  "rebuild_from pk idx [] ix = ix"
| "rebuild_from pk idx (r # rs) ix =
     rebuild_from pk (Suc idx) rs (ix(str_py (dict_get r pk) \<mapsto> idx))"

definition rebuild_index :: "table \<Rightarrow> table" where
  "rebuild_index t = t\<lparr>index := rebuild_from (pk_col t) 0 (rows t) Map.empty\<rparr>"

text \<open>
  \<open>load\<close>: nothing happens without a file; a file that does not decode is reported and
  the table is left as it is; otherwise \<open>data.get("rows", [])\<close> replaces the rows and
  the index is rebuilt.
\<close>

definition load :: "table \<Rightarrow> filesystem \<Rightarrow> table" where
  "load t fs =
     (case fs (filepath t) of
        None \<Rightarrow> t
      | Some Undecodable \<Rightarrow> t
      | Some (Json data) \<Rightarrow>
          rebuild_index (t\<lparr>rows := (case doc_rows data of None \<Rightarrow> [] | Some rs \<Rightarrow> rs)\<rparr>))"

definition save :: "table \<Rightarrow> filesystem \<Rightarrow> filesystem" where
  "save t fs =
     fs(filepath t \<mapsto>
        Json \<lparr>doc_schema = Some (schema t), doc_pk_col = Some (pk_col t),
              doc_rows = Some (rows t)\<rparr>)"

text \<open>\<open>Table.__init__\<close>.\<close>

definition Table :: "string \<Rightarrow> string dict \<Rightarrow> string \<Rightarrow> filesystem \<Rightarrow> table" where
  "Table nm sch pk fs =
     load \<lparr>name = nm, schema = sch, pk_col = pk, rows = [], index = Map.empty,
           filepath = data_path nm\<rparr> fs"

text \<open>\<open>validate_schema\<close>: the two loops, each stopping at its first offending column.\<close>

fun check_extra :: "string dict \<Rightarrow> string list \<Rightarrow> error + unit" where
  "check_extra sch [] = Inr ()"
| "check_extra sch (col # cols) =
     (if col \<notin> set (keys sch) then Inl (ColumnNotInSchema col) else check_extra sch cols)"

fun check_missing :: "row \<Rightarrow> string list \<Rightarrow> error + unit" where
  "check_missing row_dict [] = Inr ()"
| "check_missing row_dict (col # cols) =
     (if col \<notin> set (keys row_dict) then Inl (MissingColumn col)
      else check_missing row_dict cols)"

definition validate_schema :: "table \<Rightarrow> row \<Rightarrow> error + unit" where
  "validate_schema t row_dict =
     (case check_extra (schema t) (keys row_dict) of
        Inl e \<Rightarrow> Inl e
      | Inr _ \<Rightarrow> check_missing row_dict (keys (schema t)))"

definition inserted_msg :: "string \<Rightarrow> string" where
  "inserted_msg nm = ''Inserted 1 row into '' @ nm @ ''.''"

definition insert_row :: "row \<Rightarrow> table \<times> filesystem \<Rightarrow> (error + string) \<times> table \<times> filesystem" where
  "insert_row row_dict s =
     (case s of (t, fs) \<Rightarrow>
        (case validate_schema t row_dict of
           Inl e \<Rightarrow> (Inl e, t, fs)
         | Inr _ \<Rightarrow>
             (case map_of row_dict (pk_col t) of
                None \<Rightarrow> (Inl (KeyError (pk_col t)), t, fs)
              | Some v \<Rightarrow>
                  (let pk_val = str_py v in
                   if pk_val \<in> dom (index t) then (Inl (DuplicateEntry pk_val), t, fs)
                   else
                     (let t1 = t\<lparr>rows := rows t @ [row_dict]\<rparr>;
                          t2 = t1\<lparr>index := (index t1)(pk_val \<mapsto> length (rows t1) - 1)\<rparr>
                      in (Inr (inserted_msg (name t)), t2, save t2 fs))))))"

text \<open>
  \<open>select\<close>. \<open>where_col\<close> is \<open>None\<close> or a string; \<open>not where_col\<close> holds for
  \<open>None\<close> and for the empty string.
\<close>

definition falsy :: "string option \<Rightarrow> bool" where
  "falsy where_col = (case where_col of None \<Rightarrow> True | Some c \<Rightarrow> c = [])"

definition select :: "string option \<Rightarrow> pyval \<Rightarrow> table \<Rightarrow> error + row list" where
  "select where_col where_val t =
     (if falsy where_col then Inr (rows t)
      else if where_col = Some (pk_col t) then
        (case index t (str_py where_val) of
           Some idx \<Rightarrow> (if idx < length (rows t) then Inr [rows t ! idx] else Inl IndexError)
         | None \<Rightarrow> Inr [])
      else
        Inr (filter (\<lambda>row. str_py (dict_get row (the where_col)) = str_py where_val) (rows t)))"

text \<open>
  \<open>delete\<close>. The comprehension subscripts every row with the key column, so it raises
  \<open>KeyError\<close> at the first row without it, before \<open>self.rows\<close> is assigned.
\<close>

fun rows_without :: "string \<Rightarrow> string \<Rightarrow> row list \<Rightarrow> error + row list" where
  "rows_without pk pk_str [] = Inr []"
| "rows_without pk pk_str (row # rs) =
     (case map_of row pk of
        None \<Rightarrow> Inl (KeyError pk)
      | Some v \<Rightarrow>
          (case rows_without pk pk_str rs of
             Inl e \<Rightarrow> Inl e
           | Inr rs' \<Rightarrow> Inr (if str_py v \<noteq> pk_str then row # rs' else rs')))"

definition delete_row :: "pyval \<Rightarrow> table \<times> filesystem \<Rightarrow> (error + string) \<times> table \<times> filesystem" where
  "delete_row pk_val s =
     (case s of (t, fs) \<Rightarrow>
        (let pk_str = str_py pk_val in
         if pk_str \<notin> dom (index t) then (Inl (KeyNotFound pk_str), t, fs)
         else
           (case rows_without (pk_col t) pk_str (rows t) of
              Inl e \<Rightarrow> (Inl e, t, fs)
            | Inr rs \<Rightarrow>
                (let t2 = rebuild_index (t\<lparr>rows := rs\<rparr>)
                 in (Inr ''Row deleted.'', t2, save t2 fs)))))"

subsection \<open>\<open>class Database\<close>\<close>

record database =
  tables :: "string \<rightharpoonup> table"

definition created_msg :: "string \<Rightarrow> string" where
  "created_msg nm = ''Table '' @ [CHR 0x27] @ nm @ [CHR 0x27] @ '' created/loaded.''"

definition create_table ::
  "string \<Rightarrow> string dict \<Rightarrow> string \<Rightarrow> database \<times> filesystem \<Rightarrow> (error + string) \<times> database \<times> filesystem" where
  "create_table nm sch pk s =
     (case s of (db, fs) \<Rightarrow>
        if nm \<in> dom (tables db) then (Inl (TableAlreadyLoaded nm), db, fs)
        else (Inr (created_msg nm), db\<lparr>tables := (tables db)(nm \<mapsto> Table nm sch pk fs)\<rparr>, fs))"

text \<open>What \<open>get_table\<close> hands back: a \<open>Table\<close> object or a string.\<close>

datatype returned = TableObj table | StrObj string

definition get_table ::
  "string \<Rightarrow> database \<times> filesystem \<Rightarrow> (error + returned) \<times> database \<times> filesystem" where
  "get_table nm s =
     (case s of (db, fs) \<Rightarrow>
        (case tables db nm of
           None \<Rightarrow>
             (case fs (data_path nm) of
                Some Undecodable \<Rightarrow> (Inl JSONDecodeError, db, fs)
              | Some (Json meta) \<Rightarrow>
                  (case doc_schema meta of
                     None \<Rightarrow> (Inl (KeyError ''schema''), db, fs)
                   | Some sch \<Rightarrow>
                       (case doc_pk_col meta of
                          None \<Rightarrow> (Inl (KeyError ''pk_col''), db, fs)
                        | Some pk \<Rightarrow>
                            (case create_table nm sch pk (db, fs) of
                               (Inl e, s') \<Rightarrow> (Inl e, s')
                             | (Inr msg, s') \<Rightarrow> (Inr (StrObj msg), s'))))
              | None \<Rightarrow> (Inl (TableDoesNotExist nm), db, fs))
         | Some t \<Rightarrow> (Inr (TableObj t), db, fs)))"

subsection \<open>Sequences of operations\<close>

text \<open>
  A session applies inserts and deletes one after the other to the same table; an
  operation that raises is reported and the session goes on with the state it left.
\<close>

datatype operation = Insert row | Delete pyval

fun run_op :: "operation \<Rightarrow> table \<times> filesystem \<Rightarrow> (error + string) \<times> table \<times> filesystem" where
  "run_op (Insert r) s = insert_row r s"
| "run_op (Delete v) s = delete_row v s"

fun run_ops :: "operation list \<Rightarrow> table \<times> filesystem \<Rightarrow> table \<times> filesystem" where
  "run_ops [] s = s"
| "run_ops (x # xs) s = run_ops xs (snd (run_op x s))"

subsection \<open>The consistency invariant\<close>

text \<open>The key under which \<open>rebuild_index\<close> files a row.\<close>

definition row_key :: "string \<Rightarrow> row \<Rightarrow> string" where
  "row_key pk r = str_py (dict_get r pk)"

text \<open>
  Index and rows agree: every row carries the key column and the index sends its
  stringified key to its position; the index has no other entries; no two rows have the
  same stringified key.
\<close>

definition consistent :: "table \<Rightarrow> bool" where
  "consistent t \<longleftrightarrow>
     (\<forall>i < length (rows t). \<exists>v. map_of (rows t ! i) (pk_col t) = Some v \<and> index t (str_py v) = Some i)
     \<and> dom (index t) = set (map (row_key (pk_col t)) (rows t))
     \<and> distinct (map (row_key (pk_col t)) (rows t))"

text \<open>The rows that \<open>load\<close> reads at a path: none without a decodable file.\<close>

definition stored_rows :: "filesystem \<Rightarrow> string \<Rightarrow> row list" where
  "stored_rows fs p =
     (case fs p of
        Some (Json data) \<Rightarrow> (case doc_rows data of None \<Rightarrow> [] | Some rs \<Rightarrow> rs)
      | _ \<Rightarrow> [])"

text \<open>Every row carries the key column, and no two rows have the same stringified key.\<close>

definition well_keyed :: "string \<Rightarrow> row list \<Rightarrow> bool" where
  "well_keyed pk rs \<longleftrightarrow> list_all (\<lambda>r. pk \<in> set (keys r)) rs \<and> distinct (map (row_key pk) rs)"

text \<open>Every row has columns of the schema only.\<close>

definition rows_within_schema :: "table \<Rightarrow> bool" where
  "rows_within_schema t \<longleftrightarrow> (\<forall>r \<in> set (rows t). set (keys r) \<subseteq> set (keys (schema t)))"

text \<open>A result is a failure of the class \<open>SchemaError\<close>.\<close>

definition fails_SchemaError :: "error + 'a \<Rightarrow> bool" where
  "fails_SchemaError res = (case res of Inl e \<Rightarrow> is_SchemaError e | Inr _ \<Rightarrow> False)"

subsection \<open>Example states\<close>

text \<open>
  The session \<open>CREATE TABLE students id name course\<close>, two inserts, and the table
  and file it leaves; then the same file opened with \<open>course\<close> as the key column.
\<close>

definition students_schema :: "string dict" where
  "students_schema = [(''id'', ''str''), (''name'', ''str''), (''course'', ''str'')]"

definition ann :: row where
  "ann = [(''id'', PStr ''1''), (''name'', PStr ''Ann''), (''course'', PStr ''CS'')]"

definition bob :: row where
  "bob = [(''id'', PStr ''2''), (''name'', PStr ''Bob''), (''course'', PStr ''CS'')]"

definition cy :: row where
  "cy = [(''id'', PStr ''3''), (''name'', PStr ''Cy''), (''course'', PStr ''EE'')]"

definition students_doc :: document where
  "students_doc = \<lparr>doc_schema = Some students_schema, doc_pk_col = Some ''id'',
                    doc_rows = Some [ann, bob]\<rparr>"

definition students_fs :: filesystem where
  "students_fs = [''data/students.json'' \<mapsto> Json students_doc]"

definition students :: table where
  "students = \<lparr>name = ''students'', schema = students_schema, pk_col = ''id'',
               rows = [ann, bob], index = [''1'' \<mapsto> 0, ''2'' \<mapsto> 1],
               filepath = ''data/students.json''\<rparr>"

definition by_course :: table where
  "by_course = \<lparr>name = ''students'', schema = students_schema, pk_col = ''course'',
               rows = [ann, bob], index = [''CS'' \<mapsto> 1],
               filepath = ''data/students.json''\<rparr>"

text \<open>A row without \<open>course\<close>, and a row whose key is the integer 1.\<close>

definition dee :: row where
  "dee = [(''name'', PStr ''Dee''), (''id'', PStr ''4'')]"

definition ann_again :: row where
  "ann_again = [(''id'', PInt 1), (''name'', PStr ''Anna''), (''course'', PStr ''EE'')]"

text \<open>
  The session \<open>CREATE TABLE t ""\<close> with two inserts: the key column is the empty
  string.
\<close>

definition blank_schema :: "string dict" where
  "blank_schema = [([], ''str'')]"

definition one :: row where
  "one = [([], PStr ''1'')]"

definition two :: row where
  "two = [([], PStr ''2'')]"

definition blank :: table where
  "blank = \<lparr>name = ''t'', schema = blank_schema, pk_col = [], rows = [one, two],
            index = [''1'' \<mapsto> 0, ''2'' \<mapsto> 1], filepath = ''data/t.json''\<rparr>"

text \<open>A catalog with no table registered, and a schema without the column \<open>id\<close>.\<close>

definition fresh_db :: database where
  "fresh_db = \<lparr>tables = Map.empty\<rparr>"

definition keyless_schema :: "string dict" where
  "keyless_schema = [(''name'', ''str'')]"

subsection \<open>Facts about the index\<close>

lemma rebuild_from_other:
  "k \<notin> row_key pk ` set rs \<Longrightarrow> rebuild_from pk n rs ix k = ix k"
  by (induction rs arbitrary: n ix) (auto simp: row_key_def)

lemma dom_rebuild_from:
  "dom (rebuild_from pk n rs ix) = dom ix \<union> row_key pk ` set rs"
  by (induction rs arbitrary: n ix) (auto simp: row_key_def)

lemma rebuild_from_nth:
  "distinct (map (row_key pk) rs) \<Longrightarrow> i < length rs \<Longrightarrow>
   rebuild_from pk n rs ix (row_key pk (rs ! i)) = Some (n + i)"
proof (induction rs arbitrary: n ix i)
  case Nil
  then show ?case by simp
next
  case (Cons r rs)
  show ?case
  proof (cases i)
    case 0
    have "row_key pk r \<notin> row_key pk ` set rs" using Cons.prems(1) by auto
    then have "rebuild_from pk (Suc n) rs (ix(row_key pk r \<mapsto> n)) (row_key pk r) = Some n"
      by (simp add: rebuild_from_other)
    then show ?thesis using 0 by (simp add: row_key_def)
  next
    case (Suc j)
    then have j: "j < length rs" using Cons.prems(2) by simp
    have d: "distinct (map (row_key pk) rs)" using Cons.prems(1) by simp
    have "rebuild_from pk (Suc n) rs (ix(row_key pk r \<mapsto> n)) (row_key pk (rs ! j)) = Some (Suc n + j)"
      by (rule Cons.IH [OF d j])
    then show ?thesis using Suc by (simp add: row_key_def)
  qed
qed

lemma map_of_keys: "k \<in> set (keys d) \<Longrightarrow> \<exists>v. map_of d k = Some v"
  by (induction d) (auto simp: keys_def)

lemma map_of_row_key: "map_of r pk = Some v \<Longrightarrow> row_key pk r = str_py v"
  by (simp add: row_key_def dict_get_def)

lemma consistent_alt:
  "consistent t \<longleftrightarrow>
     (\<forall>r \<in> set (rows t). pk_col t \<in> set (keys r))
     \<and> (\<forall>i < length (rows t). index t (row_key (pk_col t) (rows t ! i)) = Some i)
     \<and> dom (index t) = set (map (row_key (pk_col t)) (rows t))
     \<and> distinct (map (row_key (pk_col t)) (rows t))"
  (is "?L \<longleftrightarrow> ?R")
proof
  assume L: ?L
  have "pk_col t \<in> set (keys r)" if "r \<in> set (rows t)" for r
  proof -
    from that obtain i where i: "i < length (rows t)" "rows t ! i = r"
      by (auto simp: in_set_conv_nth)
    with L obtain v where "map_of r (pk_col t) = Some v" unfolding consistent_def by blast
    then show ?thesis by (metis keys_def map_of_eq_None_iff option.distinct(1) set_map)
  qed
  moreover have "index t (row_key (pk_col t) (rows t ! i)) = Some i" if "i < length (rows t)" for i
    using L that unfolding consistent_def by (metis map_of_row_key)
  ultimately show ?R using L unfolding consistent_def by blast
next
  assume R: ?R
  have "\<exists>v. map_of (rows t ! i) (pk_col t) = Some v \<and> index t (str_py v) = Some i"
    if i: "i < length (rows t)" for i
  proof -
    from R i have "pk_col t \<in> set (keys (rows t ! i))" by simp
    then obtain v where v: "map_of (rows t ! i) (pk_col t) = Some v"
      using map_of_keys by blast
    moreover have "index t (row_key (pk_col t) (rows t ! i)) = Some i" using R i by blast
    ultimately show ?thesis by (simp add: map_of_row_key)
  qed
  then show ?L using R unfolding consistent_def by blast
qed

lemma consistent_rebuild:
  assumes "\<forall>r \<in> set rs. pk_col t \<in> set (keys r)"
    and "distinct (map (row_key (pk_col t)) rs)"
  shows "consistent (rebuild_index (t\<lparr>rows := rs\<rparr>))"
  using assms
  by (simp add: consistent_alt rebuild_index_def dom_rebuild_from
      rebuild_from_nth [where n = 0, simplified])

lemma rows_without_filter:
  "\<forall>r \<in> set rs. pk \<in> set (keys r) \<Longrightarrow>
   rows_without pk s rs = Inr (filter (\<lambda>r. row_key pk r \<noteq> s) rs)"
proof (induction rs)
  case Nil
  then show ?case by simp
next
  case (Cons r rs)
  then obtain v where "map_of r pk = Some v" using map_of_keys by fastforce
  with Cons show ?case by (simp add: map_of_row_key)
qed

lemma consistent_delete:
  assumes "consistent t"
  shows "consistent (fst (snd (delete_row v (t, fs))))"
proof (cases "str_py v \<in> dom (index t)")
  case False
  then show ?thesis using assms by (simp add: delete_row_def)
next
  case True
  let ?rs = "filter (\<lambda>r. row_key (pk_col t) r \<noteq> str_py v) (rows t)"
  have all: "\<forall>r \<in> set (rows t). pk_col t \<in> set (keys r)"
    using assms by (simp add: consistent_alt)
  have "distinct (map (row_key (pk_col t)) (rows t))"
    using assms by (simp add: consistent_alt)
  then have "distinct (map (row_key (pk_col t)) ?rs)" by (rule distinct_map_filter)
  moreover have "\<forall>r \<in> set ?rs. pk_col t \<in> set (keys r)" using all by simp
  ultimately have "consistent (rebuild_index (t\<lparr>rows := ?rs\<rparr>))"
    by (rule consistent_rebuild [rotated])
  then show ?thesis using True by (simp add: delete_row_def rows_without_filter [OF all] Let_def)
qed

lemma consistent_append:
  assumes c: "consistent t" and v: "map_of r (pk_col t) = Some v"
    and new: "str_py v \<notin> dom (index t)"
  shows "consistent (t\<lparr>rows := rows t @ [r], index := (index t)(str_py v \<mapsto> length (rows t))\<rparr>)"
proof -
  let ?k = "row_key (pk_col t)"
  have kr: "?k r = str_py v" using v by (rule map_of_row_key)
  have dom: "dom (index t) = set (map ?k (rows t))" using c by (simp add: consistent_alt)
  have fresh: "str_py v \<notin> set (map ?k (rows t))" using new dom by simp
  have pk: "pk_col t \<in> set (keys r)"
    using v by (metis keys_def map_of_eq_None_iff option.distinct(1) set_map)
  have nth: "((index t)(str_py v \<mapsto> length (rows t))) (?k ((rows t @ [r]) ! i)) = Some i"
    if "i < Suc (length (rows t))" for i
  proof (cases "i < length (rows t)")
    case True
    then have "?k (rows t ! i) \<noteq> str_py v" using fresh by (metis nth_mem length_map nth_map)
    moreover have "index t (?k (rows t ! i)) = Some i" using c True by (simp add: consistent_alt)
    ultimately show ?thesis using True by (simp add: nth_append)
  next
    case False
    then have "i = length (rows t)" using that by simp
    then show ?thesis by (simp add: kr)
  qed
  show ?thesis
    unfolding consistent_alt using c pk nth fresh dom
    by (simp add: consistent_alt kr)
qed

lemma consistent_insert:
  assumes "consistent t"
  shows "consistent (fst (snd (insert_row r (t, fs))))"
  using assms consistent_append [of t r]
  by (auto simp: insert_row_def Let_def split: sum.splits option.splits)

lemma consistent_run_op: "consistent t \<Longrightarrow> consistent (fst (snd (run_op x (t, fs))))"
  by (cases x) (simp_all add: consistent_insert consistent_delete)

lemma consistent_run_ops: "consistent (fst s) \<Longrightarrow> consistent (fst (run_ops xs s))"
proof (induction xs arbitrary: s)
  case Nil
  then show ?case by simp
next
  case (Cons x xs)
  obtain t fs where s: "s = (t, fs)" by (cases s)
  have "consistent (fst (snd (run_op x s)))"
    using Cons.prems unfolding s by (simp add: consistent_run_op)
  then show ?case by (simp add: Cons.IH)
qed

lemma consistent_Table:
  assumes "well_keyed pk (stored_rows fs (data_path nm))"
  shows "consistent (Table nm sch pk fs)"
proof (cases "fs (data_path nm)")
  case None
  then show ?thesis by (simp add: Table_def load_def consistent_def)
next
  case (Some c)
  show ?thesis
  proof (cases c)
    case Undecodable
    with Some show ?thesis by (simp add: Table_def load_def consistent_def)
  next
    case (Json d)
    let ?t = "\<lparr>name = nm, schema = sch, pk_col = pk, rows = [], index = Map.empty,
           filepath = data_path nm\<rparr>"
    have "consistent (rebuild_index (?t\<lparr>rows := stored_rows fs (data_path nm)\<rparr>))"
      by (rule consistent_rebuild) (use assms in \<open>simp_all add: well_keyed_def list_all_iff\<close>)
    then show ?thesis using Some Json by (simp add: Table_def load_def stored_rows_def)
  qed
qed

subsection \<open>The example session\<close>

lemma students_session:
  "run_ops [Insert ann, Insert bob] (Table ''students'' students_schema ''id'' Map.empty, Map.empty)
   = (students, students_fs)"
  by (simp add: Table_def load_def data_path_def insert_row_def validate_schema_def keys_def
      students_schema_def ann_def bob_def save_def students_def students_fs_def students_doc_def
      inserted_msg_def Let_def)

lemma students_reopened:
  "Table ''students'' students_schema ''course'' students_fs = by_course"
  by (simp add: Table_def load_def data_path_def students_fs_def students_doc_def
      rebuild_index_def dict_get_def ann_def bob_def by_course_def)

lemma stored_rows_students: "stored_rows students_fs (data_path ''students'') = [ann, bob]"
  by (simp add: stored_rows_def students_fs_def data_path_def students_doc_def)

subsection \<open>Index and rows\<close>

text \<open>
  C1 (as amended). Start from a table constructed with no file, or from one loaded from a
  file in which every row carries the key column and no two rows have the same
  stringified key. After any sequence of inserts and deletes (those that raise leave the
  state as it was), every row at position \<open>i\<close> has \<open>index[str(row[pk])] = i\<close>, the
  index has no other entries, the stringified keys are pairwise different, and the index
  has as many entries as there are rows.
\<close>

theorem index_consistent_after_operations:
  assumes "well_keyed pk (stored_rows fs (data_path nm))"
  shows "consistent (fst (run_ops xs (Table nm sch pk fs, fs)))
       \<and> card (dom (index (fst (run_ops xs (Table nm sch pk fs, fs)))))
         = length (rows (fst (run_ops xs (Table nm sch pk fs, fs))))"
proof -
  have c: "consistent (fst (run_ops xs (Table nm sch pk fs, fs)))"
    using consistent_Table [OF assms] by (simp add: consistent_run_ops)
  then have "card (dom (index (fst (run_ops xs (Table nm sch pk fs, fs)))))
         = length (rows (fst (run_ops xs (Table nm sch pk fs, fs))))"
    unfolding consistent_def by (metis distinct_card length_map)
  with c show ?thesis by simp
qed

theorem index_consistent_after_operations_witness:
  "well_keyed ''id'' (stored_rows students_fs (data_path ''students''))
   \<and> consistent (fst (run_ops [Delete (PStr ''1''), Insert cy]
        (Table ''students'' students_schema ''id'' students_fs, students_fs)))
   \<and> rows (fst (run_ops [Delete (PStr ''1''), Insert cy]
        (Table ''students'' students_schema ''id'' students_fs, students_fs))) = [bob, cy]"
proof -
  have h: "well_keyed ''id'' (stored_rows students_fs (data_path ''students''))"
    by (simp add: well_keyed_def stored_rows_students keys_def row_key_def dict_get_def
        ann_def bob_def)
  have r: "rows (fst (run_ops [Delete (PStr ''1''), Insert cy]
        (Table ''students'' students_schema ''id'' students_fs, students_fs))) = [bob, cy]"
    by (simp add: Table_def load_def data_path_def students_fs_def students_doc_def
        rebuild_index_def dict_get_def ann_def bob_def cy_def delete_row_def insert_row_def
        validate_schema_def keys_def students_schema_def save_def Let_def)
  show ?thesis
    using index_consistent_after_operations [OF h, of "[Delete (PStr ''1''), Insert cy]" students_schema]
      h r by simp
qed

text \<open>
  C1 as stated fails for a loaded table. The file written by the example session, opened
  with \<open>course\<close> as the key column, holds two rows with the key \<open>CS\<close>: the index sends
  \<open>CS\<close> to position 1 while the row at position 0 has that key too, and a successful
  insert leaves it so.
\<close>

theorem index_inconsistent_after_reload:
  "run_ops [Insert ann, Insert bob]
     (Table ''students'' students_schema ''id'' Map.empty, Map.empty) = (students, students_fs)
   \<and> fst (run_op (Insert cy)
        (Table ''students'' students_schema ''course'' students_fs, students_fs))
      = Inr ''Inserted 1 row into students.''
   \<and> index (fst (run_ops [Insert cy]
        (Table ''students'' students_schema ''course'' students_fs, students_fs)))
        (str_py (dict_get ann ''course'')) = Some 1
   \<and> rows (fst (run_ops [Insert cy]
        (Table ''students'' students_schema ''course'' students_fs, students_fs))) ! 0 = ann
   \<and> \<not> consistent (fst (run_ops [Insert cy]
        (Table ''students'' students_schema ''course'' students_fs, students_fs)))"
proof -
  let ?t = "fst (snd (insert_row cy (by_course, students_fs)))"
  have res: "fst (insert_row cy (by_course, students_fs)) = Inr ''Inserted 1 row into students.''"
    by (simp add: insert_row_def validate_schema_def keys_def by_course_def cy_def
        students_schema_def inserted_msg_def Let_def)
  have rws: "rows ?t = [ann, bob, cy]"
    by (simp add: insert_row_def validate_schema_def keys_def by_course_def cy_def
        students_schema_def Let_def)
  have pk: "pk_col ?t = ''course''"
    by (simp add: insert_row_def validate_schema_def keys_def by_course_def cy_def
        students_schema_def Let_def)
  have ix: "index ?t ''CS'' = Some 1"
    by (simp add: insert_row_def validate_schema_def keys_def by_course_def cy_def
        students_schema_def Let_def)
  have nc: "\<not> consistent ?t"
    by (simp add: consistent_def rws pk row_key_def dict_get_def ann_def bob_def)
  have key: "str_py (dict_get ann ''course'') = ''CS''"
    by (simp add: dict_get_def ann_def)
  show ?thesis
  proof (intro conjI)
    show "run_ops [Insert ann, Insert bob]
       (Table ''students'' students_schema ''id'' Map.empty, Map.empty) = (students, students_fs)"
      by (rule students_session)
  qed (use nc in \<open>simp_all add: students_reopened res rws ix key\<close>)
qed

subsection \<open>Schema validation\<close>

lemma check_extra_Inr: "check_extra sch cols = Inr () \<longleftrightarrow> set cols \<subseteq> set (keys sch)"
  by (induction cols) auto

lemma check_extra_Inl: "check_extra sch cols = Inl e \<Longrightarrow> is_SchemaError e"
  by (induction cols) (auto split: if_splits)

lemma check_missing_Inr: "check_missing r cols = Inr () \<longleftrightarrow> set cols \<subseteq> set (keys r)"
  by (induction cols) auto

lemma check_missing_Inl: "check_missing r cols = Inl e \<Longrightarrow> is_SchemaError e"
  by (induction cols) (auto split: if_splits)

lemma validate_schema_Inr: "validate_schema t r = Inr () \<longleftrightarrow> set (keys r) = set (keys (schema t))"
proof (cases "check_extra (schema t) (keys r)")
  case (Inl e)
  then have "\<not> set (keys r) \<subseteq> set (keys (schema t))"
    using check_extra_Inr [of "schema t" "keys r"] by simp
  then show ?thesis using Inl by (auto simp: validate_schema_def)
next
  case (Inr u)
  then have "set (keys r) \<subseteq> set (keys (schema t))"
    using check_extra_Inr [of "schema t" "keys r"] by simp
  then show ?thesis using Inr by (auto simp: validate_schema_def check_missing_Inr)
qed

lemma validate_schema_Inl: "validate_schema t r = Inl e \<Longrightarrow> is_SchemaError e"
  by (auto simp: validate_schema_def split: sum.splits dest: check_extra_Inl check_missing_Inl)

lemma fails_validate_schema:
  "fails_SchemaError (validate_schema t r) \<longleftrightarrow> set (keys r) \<noteq> set (keys (schema t))"
proof (cases "validate_schema t r")
  case (Inl e)
  then have "validate_schema t r \<noteq> Inr ()" by simp
  then have "set (keys r) \<noteq> set (keys (schema t))" by (simp add: validate_schema_Inr)
  then show ?thesis using Inl by (simp add: fails_SchemaError_def validate_schema_Inl)
next
  case (Inr u)
  then have "validate_schema t r = Inr ()" by simp
  then have "set (keys r) = set (keys (schema t))" by (simp add: validate_schema_Inr)
  then show ?thesis using Inr by (simp add: fails_SchemaError_def)
qed

lemma fails_insert_row:
  "fails_SchemaError (fst (insert_row r (t, fs))) \<longleftrightarrow> fails_SchemaError (validate_schema t r)"
  by (auto simp: insert_row_def fails_SchemaError_def Let_def split: sum.splits option.splits)

text \<open>
  C7. \<open>validate_schema\<close>, and with it \<open>insert\<close>, fails with a schema error exactly
  when the row has a column that the schema lacks or lacks a column that the schema has.
  Two rows with the same set of column names, in whatever order, fail or pass together.
  When validation fails, \<open>insert\<close> returns the table and the file system as they were.
\<close>

theorem validate_schema_spec:
  "(fails_SchemaError (validate_schema t r) \<longleftrightarrow>
      (\<exists>c \<in> set (keys r). c \<notin> set (keys (schema t))) \<or> (\<exists>c \<in> set (keys (schema t)). c \<notin> set (keys r)))
   \<and> (fails_SchemaError (fst (insert_row r (t, fs))) \<longleftrightarrow> fails_SchemaError (validate_schema t r))
   \<and> (set (keys r') = set (keys r) \<longrightarrow>
        fails_SchemaError (validate_schema t r') = fails_SchemaError (validate_schema t r))
   \<and> (fails_SchemaError (validate_schema t r) \<longrightarrow> snd (insert_row r (t, fs)) = (t, fs))"
proof (intro conjI impI)
  show "fails_SchemaError (validate_schema t r) \<longleftrightarrow>
      (\<exists>c \<in> set (keys r). c \<notin> set (keys (schema t))) \<or> (\<exists>c \<in> set (keys (schema t)). c \<notin> set (keys r))"
    unfolding fails_validate_schema by blast
  show "fails_SchemaError (fst (insert_row r (t, fs))) \<longleftrightarrow> fails_SchemaError (validate_schema t r)"
    by (rule fails_insert_row)
  show "fails_SchemaError (validate_schema t r') = fails_SchemaError (validate_schema t r)"
    if "set (keys r') = set (keys r)"
    using that by (simp add: fails_validate_schema)
  show "snd (insert_row r (t, fs)) = (t, fs)" if "fails_SchemaError (validate_schema t r)"
    using that by (auto simp: insert_row_def fails_SchemaError_def split: sum.splits)
qed

theorem validate_schema_spec_witness:
  "fails_SchemaError (validate_schema students dee)
   \<and> fails_SchemaError (fst (insert_row dee (students, students_fs)))
   \<and> set (keys (rev dee)) = set (keys dee)
   \<and> fails_SchemaError (validate_schema students (rev dee))
   \<and> snd (insert_row dee (students, students_fs)) = (students, students_fs)"
proof -
  have k: "set (keys (rev dee)) = set (keys dee)" by (simp add: keys_def)
  have f: "fails_SchemaError (validate_schema students dee)"
    by (simp add: fails_SchemaError_def validate_schema_def keys_def students_def
        students_schema_def dee_def)
  show ?thesis
    using validate_schema_spec [of students dee students_fs "rev dee"] k f by simp
qed

subsection \<open>Duplicate keys\<close>

lemma string_of_nat_1: "string_of_nat (Suc 0) = ''1''"
  by (simp add: string_of_nat.simps [of "Suc 0"])

text \<open>
  C3. When the row passes validation and the stringified value of its key column is
  already in the index, \<open>insert\<close> fails with the duplicate-key error, and the table
  (rows and index) and the file system come back unchanged.
\<close>

theorem insert_duplicate_key:
  assumes "validate_schema t r = Inr ()"
    and "map_of r (pk_col t) = Some v"
    and "str_py v \<in> dom (index t)"
  shows "insert_row r (t, fs) = (Inl (DuplicateEntry (str_py v)), t, fs)
       \<and> is_DuplicateKeyError (DuplicateEntry (str_py v))"
  using assms by (simp add: insert_row_def)

theorem insert_duplicate_key_witness:
  "validate_schema students ann_again = Inr ()
   \<and> map_of ann_again (pk_col students) = Some (PInt 1)
   \<and> str_py (PInt 1) \<in> dom (index students)
   \<and> insert_row ann_again (students, students_fs) = (Inl (DuplicateEntry ''1''), students, students_fs)"
proof -
  have a: "validate_schema students ann_again = Inr ()"
    by (simp add: validate_schema_def keys_def students_def students_schema_def ann_again_def)
  have b: "map_of ann_again (pk_col students) = Some (PInt 1)"
    by (simp add: students_def ann_again_def)
  have c: "str_py (PInt 1) \<in> dom (index students)"
    by (simp add: string_of_nat_1 students_def)
  show ?thesis
    using insert_duplicate_key [OF a b c, of students_fs] a b c by (simp add: string_of_nat_1)
qed

subsection \<open>Selection\<close>

text \<open>
  C10. With the empty string as \<open>where_col\<close>, as with \<open>None\<close>, \<open>select\<close> returns
  all rows in their stored order whatever \<open>where_val\<close> is: the first branch tests
  \<open>not where_col\<close>.
\<close>

theorem select_falsy_where_col:
  "select (Some []) v t = Inr (rows t) \<and> select None v t = Inr (rows t)
   \<and> select (Some []) v t = select None PNone t"
  by (simp add: select_def falsy_def)

lemma dict_get_absent: "c \<notin> set (keys r) \<Longrightarrow> dict_get r c = PNone"
  by (simp add: dict_get_def keys_def map_of_eq_None_iff [THEN iffD2])

lemma rows_within_schema_students: "rows_within_schema students"
  by (simp add: rows_within_schema_def students_def keys_def students_schema_def ann_def bob_def)

text \<open>
  C6 (as amended). In a table whose rows have schema columns only, a \<open>where_col\<close> that
  is not empty, not the key column and not in the schema selects nothing, provided the
  stringified \<open>where_val\<close> is not \<open>None\<close>.
\<close>

theorem select_unknown_column:
  assumes "c \<noteq> []" and "c \<noteq> pk_col t" and "c \<notin> set (keys (schema t))"
    and "rows_within_schema t" and "str_py v \<noteq> ''None''"
  shows "select (Some c) v t = Inr []"
proof -
  have "str_py (dict_get r c) \<noteq> str_py v" if "r \<in> set (rows t)" for r
  proof -
    have "c \<notin> set (keys r)" using assms(3,4) that unfolding rows_within_schema_def by blast
    then show ?thesis using assms(5) by (simp add: dict_get_absent)
  qed
  then have "filter (\<lambda>row. str_py (dict_get row c) = str_py v) (rows t) = []"
    by (simp add: filter_empty_conv)
  then show ?thesis using assms(1,2) by (simp add: select_def falsy_def)
qed

theorem select_unknown_column_witness:
  "''grade'' \<noteq> [] \<and> ''grade'' \<noteq> pk_col students \<and> ''grade'' \<notin> set (keys (schema students))
   \<and> rows_within_schema students \<and> str_py (PStr ''A'') \<noteq> ''None''
   \<and> select (Some ''grade'') (PStr ''A'') students = Inr []"
proof -
  have a: "''grade'' \<noteq> []" by simp
  have b: "''grade'' \<noteq> pk_col students" by (simp add: students_def)
  have c: "''grade'' \<notin> set (keys (schema students))"
    by (simp add: students_def students_schema_def keys_def)
  have e: "str_py (PStr ''A'') \<noteq> ''None''" by simp
  show ?thesis
    using select_unknown_column [OF a b c rows_within_schema_students e] a b c e
      rows_within_schema_students by simp
qed

text \<open>
  C6 as stated fails: \<open>row.get\<close> gives \<open>None\<close> for a column the row lacks, and
  \<open>str(None)\<close> equals the stringified \<open>where_val\<close> when that is the string
  \<open>None\<close> or the value \<open>None\<close>; then every row is selected.
\<close>

theorem select_unknown_column_matches_None:
  "''grade'' \<noteq> [] \<and> ''grade'' \<noteq> pk_col students \<and> ''grade'' \<notin> set (keys (schema students))
   \<and> select (Some ''grade'') (PStr ''None'') students = Inr [ann, bob]
   \<and> select (Some ''grade'') PNone students = Inr [ann, bob]"
  by (simp add: select_def falsy_def students_def students_schema_def keys_def dict_get_def
      ann_def bob_def)

subsection \<open>Selection by key\<close>

lemma consistent_index_Some:
  assumes "consistent t" and "index t k = Some i"
  shows "i < length (rows t) \<and> row_key (pk_col t) (rows t ! i) = k"
proof -
  from assms have "k \<in> set (map (row_key (pk_col t)) (rows t))"
    unfolding consistent_alt by (metis domI)
  then obtain j where j: "j < length (rows t)" "row_key (pk_col t) (rows t ! j) = k"
    by (auto simp: in_set_conv_nth)
  with assms(1) have "index t k = Some j" unfolding consistent_alt by blast
  with assms(2) have "i = j" by simp
  with j show ?thesis by simp
qed

lemma find_distinct_nth:
  "distinct (map f xs) \<Longrightarrow> i < length xs \<Longrightarrow> find (\<lambda>x. f x = f (xs ! i)) xs = Some (xs ! i)"
proof (induction xs arbitrary: i)
  case Nil
  then show ?case by simp
next
  case (Cons x xs)
  show ?case
  proof (cases i)
    case 0
    then show ?thesis by simp
  next
    case (Suc j)
    then have j: "j < length xs" using Cons.prems(2) by simp
    then have "f (xs ! j) \<in> f ` set xs" by simp
    then have "f x \<noteq> f (xs ! j)" using Cons.prems(1) by auto
    moreover have "find (\<lambda>x. f x = f (xs ! j)) xs = Some (xs ! j)"
      using Cons.IH [OF _ j] Cons.prems(1) by simp
    ultimately show ?thesis using Suc by simp
  qed
qed

lemma consistent_students: "consistent students"
proof -
  have "consistent (fst (run_ops [Insert ann, Insert bob]
     (Table ''students'' students_schema ''id'' Map.empty, Map.empty)))"
    by (rule consistent_run_ops) (simp add: consistent_Table well_keyed_def stored_rows_def)
  then show ?thesis by (simp only: students_session fst_conv)
qed

lemma blank_session:
  "run_ops [Insert one, Insert two] (Table ''t'' blank_schema [] Map.empty, Map.empty)
   = (blank, save blank Map.empty)"
  by (simp add: Table_def load_def data_path_def insert_row_def validate_schema_def keys_def
      blank_schema_def one_def two_def save_def blank_def inserted_msg_def Let_def)

lemma consistent_blank: "consistent blank"
proof -
  have "consistent (fst (run_ops [Insert one, Insert two]
     (Table ''t'' blank_schema [] Map.empty, Map.empty)))"
    by (rule consistent_run_ops) (simp add: consistent_Table well_keyed_def stored_rows_def)
  then show ?thesis by (simp only: blank_session fst_conv)
qed

text \<open>
  C8 (as amended). In a consistent table whose key column is not the empty string,
  \<open>select\<close> on the key column returns the one row whose stringified key equals the
  stringified \<open>where_val\<close> when there is such a row, and nothing otherwise.
\<close>

theorem select_by_primary_key:
  assumes "consistent t" and "pk_col t \<noteq> []"
  shows "select (Some (pk_col t)) v t =
           (case find (\<lambda>r. row_key (pk_col t) r = str_py v) (rows t) of
              Some r \<Rightarrow> Inr [r]
            | None \<Rightarrow> Inr [])"
proof (cases "index t (str_py v)")
  case None
  then have "str_py v \<notin> set (map (row_key (pk_col t)) (rows t))"
    using assms(1) unfolding consistent_alt by (metis domIff)
  then have "str_py v \<notin> row_key (pk_col t) ` set (rows t)" by simp
  then have "\<forall>r \<in> set (rows t). row_key (pk_col t) r \<noteq> str_py v"
    by (metis image_eqI)
  then have "find (\<lambda>r. row_key (pk_col t) r = str_py v) (rows t) = None"
    by (simp add: find_None_iff)
  then show ?thesis using None assms(2) by (simp add: select_def falsy_def)
next
  case (Some i)
  from consistent_index_Some [OF assms(1) Some]
  have i: "i < length (rows t)" and k: "row_key (pk_col t) (rows t ! i) = str_py v" by simp_all
  have "distinct (map (row_key (pk_col t)) (rows t))" using assms(1) by (simp add: consistent_alt)
  from find_distinct_nth [OF this i]
  have "find (\<lambda>r. row_key (pk_col t) r = str_py v) (rows t) = Some (rows t ! i)" by (simp add: k)
  then show ?thesis using Some i assms(2) by (simp add: select_def falsy_def)
qed

theorem select_by_primary_key_witness:
  "consistent students \<and> pk_col students \<noteq> []
   \<and> select (Some (pk_col students)) (PInt 1) students = Inr [ann]
   \<and> select (Some (pk_col students)) (PStr ''7'') students = Inr []"
proof -
  have p: "pk_col students \<noteq> []" by (simp add: students_def)
  have a: "find (\<lambda>r. row_key (pk_col students) r = str_py (PInt 1)) (rows students) = Some ann"
    by (simp add: students_def row_key_def dict_get_def ann_def bob_def string_of_nat_1)
  have b: "find (\<lambda>r. row_key (pk_col students) r = str_py (PStr ''7'')) (rows students) = None"
    by (simp add: students_def row_key_def dict_get_def ann_def bob_def)
  show ?thesis
    using select_by_primary_key [OF consistent_students p, of "PInt 1"]
      select_by_primary_key [OF consistent_students p, of "PStr ''7''"]
      consistent_students p a b by simp
qed

text \<open>
  C8 as stated fails when the key column is the empty string: \<open>not where_col\<close> holds,
  so the first branch returns all rows, whether or not a key matches.
\<close>

theorem select_by_empty_primary_key:
  "fst (run_ops [Insert one, Insert two] (Table ''t'' blank_schema [] Map.empty, Map.empty)) = blank
   \<and> consistent blank
   \<and> select (Some (pk_col blank)) (PStr ''1'') blank = Inr [one, two]
   \<and> select (Some (pk_col blank)) (PStr ''7'') blank = Inr [one, two]"
proof -
  have s: "fst (run_ops [Insert one, Insert two] (Table ''t'' blank_schema [] Map.empty, Map.empty)) = blank"
    by (simp only: blank_session fst_conv)
  have a: "select (Some (pk_col blank)) (PStr ''1'') blank = Inr [one, two]"
    by (simp add: select_def falsy_def blank_def)
  have b: "select (Some (pk_col blank)) (PStr ''7'') blank = Inr [one, two]"
    by (simp add: select_def falsy_def blank_def)
  from s consistent_blank a b show ?thesis by (intro conjI)
qed

subsection \<open>Deletion\<close>

lemma filter_distinct_nth:
  "distinct (map f xs) \<Longrightarrow> i < length xs \<Longrightarrow>
   filter (\<lambda>x. f x \<noteq> f (xs ! i)) xs = take i xs @ drop (Suc i) xs"
proof (induction xs arbitrary: i)
  case Nil
  then show ?case by simp
next
  case (Cons x xs)
  show ?case
  proof (cases i)
    case 0
    have "f x \<notin> f ` set xs" using Cons.prems(1) by simp
    then have "\<forall>y \<in> set xs. f y \<noteq> f x" by (metis image_eqI)
    then have "filter (\<lambda>y. f y \<noteq> f x) xs = xs" by (simp add: filter_id_conv)
    then show ?thesis using 0 by simp
  next
    case (Suc j)
    then have j: "j < length xs" using Cons.prems(2) by simp
    then have "f (xs ! j) \<in> f ` set xs" by simp
    then have "f x \<noteq> f (xs ! j)" using Cons.prems(1) by auto
    moreover have "filter (\<lambda>y. f y \<noteq> f (xs ! j)) xs = take j xs @ drop (Suc j) xs"
      using Cons.IH [OF _ j] Cons.prems(1) by simp
    ultimately show ?thesis using Suc by simp
  qed
qed

text \<open>
  C4 (as amended). For every table, \<open>delete\<close> of a value whose stringification is not
  in the index fails with the key-not-found error and returns table and file system
  unchanged. For a consistent table, \<open>delete\<close> of a value whose stringification the
  index sends to \<open>i\<close> removes the row at position \<open>i\<close>, which is the row with that
  key, and no other; the remaining rows keep their order; the index is rebuilt over them,
  the table is saved, and it is consistent again.
\<close>

theorem delete_row_spec:
  "(str_py v \<notin> dom (index t) \<longrightarrow>
      delete_row v (t, fs) = (Inl (KeyNotFound (str_py v)), t, fs)
      \<and> is_KeyNotFoundError (KeyNotFound (str_py v)))
   \<and> (consistent t \<and> index t (str_py v) = Some i \<longrightarrow>
        (let t' = rebuild_index (t\<lparr>rows := take i (rows t) @ drop (Suc i) (rows t)\<rparr>)
         in i < length (rows t)
            \<and> row_key (pk_col t) (rows t ! i) = str_py v
            \<and> delete_row v (t, fs) = (Inr ''Row deleted.'', t', save t' fs)
            \<and> length (rows t') = length (rows t) - 1
            \<and> consistent t'))"
proof (intro conjI impI)
  assume "str_py v \<notin> dom (index t)"
  then show "delete_row v (t, fs) = (Inl (KeyNotFound (str_py v)), t, fs)"
    by (simp add: delete_row_def)
next
  show "is_KeyNotFoundError (KeyNotFound (str_py v))" by simp
next
  assume a: "consistent t \<and> index t (str_py v) = Some i"
  let ?k = "row_key (pk_col t)"
  let ?rs = "take i (rows t) @ drop (Suc i) (rows t)"
  from a consistent_index_Some [of t "str_py v" i]
  have i: "i < length (rows t)" and k: "?k (rows t ! i) = str_py v" by simp_all
  have all: "\<forall>r \<in> set (rows t). pk_col t \<in> set (keys r)"
    using a by (simp add: consistent_alt)
  have d: "distinct (map ?k (rows t))" using a by (simp add: consistent_alt)
  have f: "filter (\<lambda>r. ?k r \<noteq> str_py v) (rows t) = ?rs"
    using filter_distinct_nth [OF d i] by (simp add: k)
  have del: "delete_row v (t, fs) =
      (Inr ''Row deleted.'', rebuild_index (t\<lparr>rows := ?rs\<rparr>), save (rebuild_index (t\<lparr>rows := ?rs\<rparr>)) fs)"
    using a by (simp add: delete_row_def rows_without_filter [OF all] f Let_def domI)
  have "consistent (fst (snd (delete_row v (t, fs))))"
    using a by (simp add: consistent_delete)
  then have c: "consistent (rebuild_index (t\<lparr>rows := ?rs\<rparr>))" by (simp add: del)
  have len: "length (rows (rebuild_index (t\<lparr>rows := ?rs\<rparr>))) = length (rows t) - 1"
    using i by (simp add: rebuild_index_def)
  show "let t' = rebuild_index (t\<lparr>rows := ?rs\<rparr>)
         in i < length (rows t)
            \<and> ?k (rows t ! i) = str_py v
            \<and> delete_row v (t, fs) = (Inr ''Row deleted.'', t', save t' fs)
            \<and> length (rows t') = length (rows t) - 1
            \<and> consistent t'"
    using i k del len c by (simp add: Let_def)
qed

theorem delete_row_spec_witness:
  "str_py (PStr ''7'') \<notin> dom (index students)
   \<and> delete_row (PStr ''7'') (students, students_fs) = (Inl (KeyNotFound ''7''), students, students_fs)
   \<and> consistent students \<and> index students (str_py (PStr ''1'')) = Some 0
   \<and> fst (delete_row (PStr ''1'') (students, students_fs)) = Inr ''Row deleted.''
   \<and> rows (fst (snd (delete_row (PStr ''1'') (students, students_fs)))) = [bob]
   \<and> consistent (fst (snd (delete_row (PStr ''1'') (students, students_fs))))"
proof -
  have a: "str_py (PStr ''7'') \<notin> dom (index students)" by (simp add: students_def)
  have b: "index students (str_py (PStr ''1'')) = Some 0" by (simp add: students_def)
  have r: "take 0 (rows students) @ drop (Suc 0) (rows students) = [bob]"
    by (simp add: students_def)
  show ?thesis
    using delete_row_spec [of "PStr ''7''" students students_fs 0]
      delete_row_spec [of "PStr ''1''" students students_fs 0]
      a b r consistent_students
    by (simp add: Let_def rebuild_index_def)
qed

text \<open>
  C4 as stated fails on a table that is not consistent: in the file of the example
  session opened with \<open>course\<close> as the key column, both rows have the key \<open>CS\<close>,
  and deleting \<open>CS\<close> removes both.
\<close>

theorem delete_removes_two_rows:
  "Table ''students'' students_schema ''course'' students_fs = by_course
   \<and> index by_course (str_py (PStr ''CS'')) = Some 1
   \<and> rows by_course = [ann, bob]
   \<and> fst (delete_row (PStr ''CS'') (by_course, students_fs)) = Inr ''Row deleted.''
   \<and> rows (fst (snd (delete_row (PStr ''CS'') (by_course, students_fs)))) = []"
  by (simp add: students_reopened)
     (simp add: delete_row_def by_course_def ann_def bob_def rebuild_index_def Let_def)

subsection \<open>What the operations leave alone\<close>

lemma rows_without_subset:
  "rows_without pk s rs = Inr rs' \<Longrightarrow> set rs' \<subseteq> set rs"
  by (induction rs arbitrary: rs') (auto split: option.splits sum.splits if_splits)

lemma rows_within_schema_insert:
  assumes "rows_within_schema t"
  shows "rows_within_schema (fst (snd (insert_row r (t, fs))))"
proof (cases "validate_schema t r")
  case (Inl e)
  then show ?thesis using assms by (simp add: insert_row_def)
next
  case (Inr u)
  then have "set (keys r) = set (keys (schema t))" by (simp add: validate_schema_Inr)
  then show ?thesis
    using assms Inr by (auto simp: insert_row_def rows_within_schema_def Let_def split: option.splits)
qed

lemma rows_within_schema_delete:
  assumes "rows_within_schema t"
  shows "rows_within_schema (fst (snd (delete_row v (t, fs))))"
  using assms rows_without_subset [of "pk_col t" "str_py v" "rows t"]
  by (auto simp: delete_row_def rows_within_schema_def rebuild_index_def Let_def split: sum.splits)

lemma rows_within_schema_run_ops:
  "rows_within_schema (fst s) \<Longrightarrow> rows_within_schema (fst (run_ops xs s))"
proof (induction xs arbitrary: s)
  case Nil
  then show ?case by simp
next
  case (Cons x xs)
  obtain t fs where s: "s = (t, fs)" by (cases s)
  have "rows_within_schema (fst (snd (run_op x s)))"
    using Cons.prems unfolding s
    by (cases x) (simp_all add: rows_within_schema_insert rows_within_schema_delete)
  then show ?case by (simp add: Cons.IH)
qed

lemma rows_within_schema_new:
  "fs (data_path nm) = None \<Longrightarrow> rows_within_schema (fst (run_ops xs (Table nm sch pk fs, fs)))"
  by (rule rows_within_schema_run_ops) (simp add: Table_def load_def rows_within_schema_def)

lemma run_op_fields:
  "name (fst (snd (run_op x (t, fs)))) = name t \<and> schema (fst (snd (run_op x (t, fs)))) = schema t
   \<and> pk_col (fst (snd (run_op x (t, fs)))) = pk_col t
   \<and> filepath (fst (snd (run_op x (t, fs)))) = filepath t"
  by (cases x)
     (auto simp: insert_row_def delete_row_def rebuild_index_def Let_def
       split: sum.splits option.splits)

subsection \<open>Saving and loading\<close>

lemma rebuild_from_consistent:
  assumes "consistent t"
  shows "rebuild_from (pk_col t) 0 (rows t) Map.empty = index t"
proof
  fix k
  let ?key = "row_key (pk_col t)"
  have d: "distinct (map ?key (rows t))" using assms by (simp add: consistent_alt)
  show "rebuild_from (pk_col t) 0 (rows t) Map.empty k = index t k"
  proof (cases "k \<in> set (map ?key (rows t))")
    case True
    then obtain i where i: "i < length (rows t)" "?key (rows t ! i) = k"
      by (auto simp: in_set_conv_nth)
    have "rebuild_from (pk_col t) 0 (rows t) Map.empty (?key (rows t ! i)) = Some (0 + i)"
      by (rule rebuild_from_nth [OF d i(1)])
    moreover have "index t (?key (rows t ! i)) = Some i"
      using assms i(1) by (simp add: consistent_alt)
    ultimately show ?thesis using i(2) by simp
  next
    case False
    then have "rebuild_from (pk_col t) 0 (rows t) Map.empty k = None"
      by (simp add: rebuild_from_other)
    moreover have "k \<notin> dom (index t)" using assms False by (simp add: consistent_alt)
    ultimately show ?thesis by (simp add: domIff)
  qed
qed

lemma Table_after_save:
  assumes "filepath T = data_path (name T)"
  shows "Table (name T) (schema T) (pk_col T) (save T fs)
     = T\<lparr>index := rebuild_from (pk_col T) 0 (rows T) Map.empty\<rparr>"
  using assms by (simp add: Table_def load_def save_def rebuild_index_def)

text \<open>
  C2. Let \<open>T\<close> be a table whose file path is the one its constructor gave it. After
  \<open>save\<close> the file holds the schema, the key column and the rows of \<open>T\<close>. A table
  constructed over that file with the same name, schema and key column has the rows of
  \<open>T\<close> in the same order; \<open>get_table\<close> on a catalog without the table reads schema and
  key column from the file and registers exactly that table; \<open>load\<close> on \<open>T\<close> itself
  gives back its rows. When \<open>T\<close> is consistent, the index comes back too, and the loaded
  table is \<open>T\<close>.
\<close>

theorem save_load_roundtrip:
  assumes "filepath T = data_path (name T)"
  shows "(let fs' = save T fs; T' = Table (name T) (schema T) (pk_col T) fs'
          in fs' (filepath T) = Some (Json \<lparr>doc_schema = Some (schema T), doc_pk_col = Some (pk_col T),
                                            doc_rows = Some (rows T)\<rparr>)
             \<and> schema T' = schema T \<and> pk_col T' = pk_col T \<and> rows T' = rows T
             \<and> snd (get_table (name T) (fresh_db, fs')) = (\<lparr>tables = [name T \<mapsto> T']\<rparr>, fs')
             \<and> rows (load T fs') = rows T
             \<and> (consistent T \<longrightarrow> T' = T \<and> load T fs' = T))"
proof -
  let ?T' = "Table (name T) (schema T) (pk_col T) (save T fs)"
  have T': "?T' = T\<lparr>index := rebuild_from (pk_col T) 0 (rows T) Map.empty\<rparr>"
    by (rule Table_after_save [OF assms])
  have f: "save T fs (filepath T) = Some (Json \<lparr>doc_schema = Some (schema T),
      doc_pk_col = Some (pk_col T), doc_rows = Some (rows T)\<rparr>)"
    by (simp add: save_def)
  have l: "load T (save T fs) = T\<lparr>index := rebuild_from (pk_col T) 0 (rows T) Map.empty\<rparr>"
    by (simp add: load_def save_def rebuild_index_def)
  have g: "snd (get_table (name T) (fresh_db, save T fs)) = (\<lparr>tables = [name T \<mapsto> ?T']\<rparr>, save T fs)"
    using f assms by (simp add: get_table_def fresh_db_def create_table_def)
  have c: "?T' = T \<and> load T (save T fs) = T" if "consistent T"
    using that by (simp add: T' l rebuild_from_consistent)
  show ?thesis using f g c by (simp add: Let_def T' l)
qed

theorem save_load_roundtrip_witness:
  "filepath students = data_path (name students)
   \<and> rows (Table ''students'' students_schema ''id'' (save students Map.empty)) = [ann, bob]
   \<and> schema (Table ''students'' students_schema ''id'' (save students Map.empty)) = students_schema
   \<and> pk_col (Table ''students'' students_schema ''id'' (save students Map.empty)) = ''id''
   \<and> consistent students
   \<and> Table ''students'' students_schema ''id'' (save students Map.empty) = students"
proof -
  have h: "filepath students = data_path (name students)"
    by (simp add: students_def data_path_def)
  have n: "name students = ''students''" "schema students = students_schema"
    "pk_col students = ''id''" "rows students = [ann, bob]"
    by (simp_all add: students_def)
  show ?thesis
    using save_load_roundtrip [OF h, of Map.empty] h consistent_students
    by (simp add: Let_def n)
qed

subsection \<open>The catalog\<close>

lemma get_table_registered:
  "tables db nm = Some t \<Longrightarrow> get_table nm (db, fs) = (Inr (TableObj t), db, fs)"
  by (simp add: get_table_def)

lemma get_table_absent:
  "tables db nm = None \<Longrightarrow> fs (data_path nm) = None \<Longrightarrow>
   get_table nm (db, fs) = (Inl (TableDoesNotExist nm), db, fs)
   \<and> is_TableNotFoundError (TableDoesNotExist nm)"
  by (simp add: get_table_def)

lemma get_table_lazy:
  "tables db nm = None \<Longrightarrow>
   fs (data_path nm) = Some (Json \<lparr>doc_schema = Some sch, doc_pk_col = Some pk, doc_rows = rs\<rparr>) \<Longrightarrow>
   get_table nm (db, fs) =
     (Inr (StrObj (created_msg nm)), db\<lparr>tables := (tables db)(nm \<mapsto> Table nm sch pk fs)\<rparr>, fs)"
  by (simp add: get_table_def create_table_def domIff)

lemma students_loaded: "Table ''students'' students_schema ''id'' students_fs = students"
  by (simp add: Table_def load_def data_path_def students_fs_def students_doc_def
      rebuild_index_def dict_get_def ann_def bob_def students_def)

text \<open>
  C5. On a catalog without the table and a file system holding the file of the example
  session, \<open>get_table\<close> registers the loaded table and returns the message of
  \<open>create_table\<close>, a string, where the callers expect the table.
\<close>

theorem get_table_lazy_load_returns_message:
  "get_table ''students'' (fresh_db, students_fs)
   = (Inr (StrObj (''Table '' @ [CHR 0x27] @ ''students'' @ [CHR 0x27] @ '' created/loaded.'')),
      \<lparr>tables = [''students'' \<mapsto> students]\<rparr>, students_fs)"
proof -
  have "fresh_db\<lparr>tables := (tables fresh_db)(''students'' \<mapsto> students)\<rparr>
      = \<lparr>tables = [''students'' \<mapsto> students]\<rparr>"
    by (simp add: fresh_db_def)
  moreover have "get_table ''students'' (fresh_db, students_fs) =
     (Inr (StrObj (created_msg ''students'')),
      fresh_db\<lparr>tables := (tables fresh_db)(''students'' \<mapsto> Table ''students'' students_schema ''id'' students_fs)\<rparr>,
      students_fs)"
    by (rule get_table_lazy [where rs = "Some [ann, bob]"])
       (simp_all add: fresh_db_def students_fs_def students_doc_def data_path_def)
  ultimately show ?thesis by (simp add: students_loaded created_msg_def)
qed

subsection \<open>Construction\<close>

lemma Table_fields:
  "name (Table nm sch pk fs) = nm \<and> schema (Table nm sch pk fs) = sch
   \<and> pk_col (Table nm sch pk fs) = pk \<and> filepath (Table nm sch pk fs) = data_path nm"
  by (simp add: Table_def load_def rebuild_index_def split: option.splits contents.splits)

text \<open>
  C9 (as amended). With a key column outside the schema the constructor raises nothing:
  it returns a table with that schema and that key column, \<open>create_table\<close> registers it
  under a name not yet registered, and every \<open>insert\<close> into it fails, with a schema error
  or with \<open>KeyError\<close> on the key column.
\<close>

theorem create_without_key_check:
  assumes "pk \<notin> set (keys sch)"
  shows "schema (Table nm sch pk fs) = sch \<and> pk_col (Table nm sch pk fs) = pk
       \<and> (tables db nm = None \<longrightarrow>
            create_table nm sch pk (db, fs)
            = (Inr (created_msg nm), db\<lparr>tables := (tables db)(nm \<mapsto> Table nm sch pk fs)\<rparr>, fs))
       \<and> (fst (insert_row r (Table nm sch pk fs, fs')) = Inl (KeyError pk)
            \<or> fails_SchemaError (fst (insert_row r (Table nm sch pk fs, fs'))))"
proof -
  let ?t = "Table nm sch pk fs"
  have s: "schema ?t = sch" and p: "pk_col ?t = pk" by (simp_all add: Table_fields)
  have "fst (insert_row r (?t, fs')) = Inl (KeyError pk) \<or> fails_SchemaError (fst (insert_row r (?t, fs')))"
  proof (cases "fails_SchemaError (validate_schema ?t r)")
    case True
    then show ?thesis by (simp add: fails_insert_row)
  next
    case False
    then have "set (keys r) = set (keys sch)" by (simp add: fails_validate_schema s)
    then have "pk \<notin> set (keys r)" using assms by simp
    then have m: "map_of r pk = None" by (simp add: keys_def map_of_eq_None_iff)
    from False have "validate_schema ?t r = Inr ()"
      by (simp add: fails_validate_schema validate_schema_Inr)
    then show ?thesis using m by (simp add: insert_row_def p)
  qed
  then show ?thesis using s p by (simp add: create_table_def domIff)
qed

theorem create_without_key_check_witness:
  "''id'' \<notin> set (keys keyless_schema)
   \<and> fst (create_table ''t'' keyless_schema ''id'' (fresh_db, Map.empty)) = Inr (created_msg ''t'')
   \<and> fst (insert_row [(''name'', PStr ''Ann'')] (Table ''t'' keyless_schema ''id'' Map.empty, Map.empty))
       = Inl (KeyError ''id'')"
proof -
  have h: "''id'' \<notin> set (keys keyless_schema)" by (simp add: keys_def keyless_schema_def)
  have n: "tables fresh_db ''t'' = None" by (simp add: fresh_db_def)
  have v: "\<not> fails_SchemaError (fst (insert_row [(''name'', PStr ''Ann'')]
      (Table ''t'' keyless_schema ''id'' Map.empty, Map.empty)))"
    by (simp add: fails_insert_row fails_validate_schema Table_fields keys_def keyless_schema_def)
  show ?thesis
    using create_without_key_check [OF h, of "''t''" Map.empty fresh_db "[(''name'', PStr ''Ann'')]" Map.empty]
      h n v by simp
qed

text \<open>
  C9 as stated fails: \<open>__init__\<close> has no check of the key column against the schema.
\<close>

theorem create_outside_schema:
  "''id'' \<notin> set (keys keyless_schema)
   \<and> Table ''t'' keyless_schema ''id'' Map.empty
      = \<lparr>name = ''t'', schema = keyless_schema, pk_col = ''id'', rows = [], index = Map.empty,
         filepath = ''data/t.json''\<rparr>
   \<and> create_table ''t'' keyless_schema ''id'' (fresh_db, Map.empty)
      = (Inr (created_msg ''t''),
         \<lparr>tables = [''t'' \<mapsto> Table ''t'' keyless_schema ''id'' Map.empty]\<rparr>, Map.empty)"
  by (simp add: keys_def keyless_schema_def Table_def load_def data_path_def create_table_def
      fresh_db_def)

end
